theory Spec2Isabelle
  imports Complex_Main
begin

section \<open>The transcript player: data model\<close>

text \<open>
  The sources hold the class \<open>ConversaPlay\<close> three times. The development embeds the
  fullest variant, the one with message grouping and tag triggers; a second variant is the
  same text without the tag subsystem. The variant of \<open>script.js\<close> has neither tags nor
  grouping; its reveal functions are embedded separately, under names ending in
  \<open>_script\<close>.

  Times read from the media element (\<open>audio.currentTime\<close>, \<open>audio.duration\<close>) and from
  \<open>performance.now()\<close> are finite numbers and are modelled as rationals; the rounding of
  double arithmetic is not modelled. A timestamp of the track configuration is whatever the
  configuration holds: a finite number, an infinity, \<open>NaN\<close>, or nothing at all.
\<close>

datatype jsval = Num rat | PosInfinity | NegInfinity | NaN | Undefined

text \<open>\<open>currentTime >= message.timestamp\<close> with a finite left operand; \<open>undefined\<close>
  converts to \<open>NaN\<close>, and every comparison with \<open>NaN\<close> is false.\<close>

fun js_ge :: "rat \<Rightarrow> jsval \<Rightarrow> bool" where
  "js_ge t (Num r) = (r \<le> t)"
| "js_ge t PosInfinity = False"
| "js_ge t NegInfinity = True"
| "js_ge t NaN = False"
| "js_ge t Undefined = False"

text \<open>\<open>(currentTime / duration) * 100\<close>: division by zero gives \<open>NaN\<close> or an infinity.\<close>

definition js_progress :: "rat \<Rightarrow> rat \<Rightarrow> jsval" where
  "js_progress currentTime dur =
     (if dur = 0
      then (if currentTime = 0 then NaN
            else if 0 < currentTime then PosInfinity else NegInfinity)
      else Num (currentTime / dur * 100))"

text \<open>An utterance of the configuration: its \<open>type\<close> (the speaker, \<open>'ai'\<close> or
  \<open>'user'\<close>), its \<open>text\<close> and its \<open>timestamp\<close>. The class never reads the
  \<open>duration\<close> of an utterance. A trigger pairs a timestamp with the data of a tag.\<close>

record message =
  mtype :: string
  mtext :: string
  timestamp :: jsval

record tagData =
  tag_type :: string
  label :: string
  description :: string

record trigger =
  trigger_timestamp :: jsval
  tag :: tagData

text \<open>A message block of the conversation window: its class (the speaker), its
  \<open>dataset.index\<close>, and the texts of its \<open>.message-text\<close> children in document order.\<close>

record message_el =
  className :: string
  dataset_index :: "nat option"
  texts :: "string list"

text \<open>Callbacks handed to \<open>setTimeout\<close>. Only the one that shows the tag panel is kept;
  the fades of single elements, the scrolling and the spinning restart icon are styling.\<close>

datatype timeout_callback = ShowTagsContainer

text \<open>
  The instance fields of \<open>ConversaPlay\<close>, the parts of the document it writes, and the
  browser state it relies on.
  \<^item> \<open>lastMessageElement\<close> is a reference to a block: \<open>Some i\<close> with
    \<open>i < length conversationWindow\<close> is the \<open>i\<close>-th child of the window, \<open>Some i\<close> beyond the
    length is an element that is no longer in the window, \<open>None\<close> is \<open>null\<close>.
  \<^item> \<open>progressFill_width\<close> is the number written before the \<open>%\<close> sign of
    \<open>progressFill.style.width\<close>.
  \<^item> \<open>tagsContent\<close> lists the badges of the tag panel; a badge is made from the data of
    its tag alone (class, icon, label and title), so the list holds these data.
    \<open>tagsContainer_opacity\<close> is the opacity of the panel, \<open>'0'\<close> when hidden; its
    transform is always written together with it.
  \<^item> \<open>animationFrameId\<close> is the handle of the pending \<open>animate\<close> callback; handles are
    positive, \<open>rafHandles\<close> counts those issued. \<open>pendingUpdates\<close> counts the one-shot
    \<open>updateMessages\<close> callbacks registered by \<open>scheduleMessageUpdate\<close>, \<open>timeouts\<close> lists
    the pending \<open>setTimeout\<close> callbacks with their delays.
\<close>

record player =
  conversation :: "message list"
  audioSrc :: string
  audio_currentTime :: rat
  audio_paused :: bool
  renderedMessages :: "nat set"
  renderedTags :: "nat set"
  isDragging :: bool
  duration :: rat
  lastRenderTime :: rat
  animationFrameId :: "nat option"
  hasEnded :: bool
  lastMessageElement :: "nat option"
  lastMessageType :: "string option"
  tagTriggers :: "(string \<times> trigger list) list"
  currentTabTriggers :: "trigger list"
  conversationWindow :: "message_el list"
  progressFill_width :: jsval
  currentTimeEl :: string
  totalTimeEl :: string
  tagsContent :: "tagData list"
  tagsContainer_opacity :: string
  playIcon_display :: string
  pauseIcon_display :: string
  rafHandles :: nat
  pendingUpdates :: nat
  timeouts :: "(nat \<times> timeout_callback) list"

section \<open>Helpers of the language\<close>

text \<open>\<open>xs.forEach((x, index) => ...)\<close>: the callback runs on every element with its index,
  in list order, each call seeing the state the previous one left.\<close>

definition forEach :: "'a list \<Rightarrow> ('a \<Rightarrow> nat \<Rightarrow> 's \<Rightarrow> 's) \<Rightarrow> 's \<Rightarrow> 's" where
  "forEach xs f s = fold (\<lambda>(i, x). f x i) (enumerate 0 xs) s"

fun show_nat :: "nat \<Rightarrow> string" where
  "show_nat n =
     (if n < 10 then [''0123456789'' ! n]
      else show_nat (n div 10) @ [''0123456789'' ! (n mod 10)])"

declare show_nat.simps [simp del]

definition show_int :: "int \<Rightarrow> string" where
  "show_int i = (if i < 0 then ''-'' @ show_nat (nat (- i)) else show_nat (nat i))"

text \<open>\<open>a % b\<close> takes the sign of the dividend.\<close>

definition js_rem :: "rat \<Rightarrow> rat \<Rightarrow> rat" where
  "js_rem a b = a - b * of_int (if a / b < 0 then \<lceil>a / b\<rceil> else \<lfloor>a / b\<rfloor>)"

definition padStart2 :: "string \<Rightarrow> string" where
  "padStart2 str = replicate (2 - length str) (CHR ''0'') @ str"

definition formatTime :: "rat \<Rightarrow> string" where
  "formatTime seconds =
     (let mins = \<lfloor>seconds / 60\<rfloor>;
          secs = \<lfloor>js_rem seconds 60\<rfloor>
      in show_int mins @ '':'' @ padStart2 (show_int secs))"

section \<open>Animation loop, play and pause\<close>

definition startAnimationLoop :: "player \<Rightarrow> player" where
  "startAnimationLoop s =
     (if animationFrameId s \<noteq> None then s
      else s\<lparr>animationFrameId := Some (Suc (rafHandles s)),
             rafHandles := Suc (rafHandles s)\<rparr>)"

definition stopAnimationLoop :: "player \<Rightarrow> player" where
  "stopAnimationLoop s =
     (if animationFrameId s \<noteq> None then s\<lparr>animationFrameId := None\<rparr> else s)"

definition scheduleMessageUpdate :: "player \<Rightarrow> player" where
  "scheduleMessageUpdate s =
     (if animationFrameId s = None then s\<lparr>pendingUpdates := Suc (pendingUpdates s)\<rparr> else s)"

definition play :: "player \<Rightarrow> player" where
  "play s =
     startAnimationLoop
       (s\<lparr>audio_paused := False,
          playIcon_display := ''none'',
          pauseIcon_display := ''block'',
          hasEnded := False\<rparr>)"

definition pause :: "player \<Rightarrow> player" where
  "pause s =
     stopAnimationLoop
       (s\<lparr>audio_paused := True,
          playIcon_display := ''block'',
          pauseIcon_display := ''none''\<rparr>)"

definition handleAudioEnd :: "player \<Rightarrow> player" where
  "handleAudioEnd s =
     (let s1 = pause (s\<lparr>hasEnded := True\<rparr>)
      in s1\<lparr>progressFill_width := Num 100,
            currentTimeEl := formatTime (duration s1),
            playIcon_display := ''block'',
            pauseIcon_display := ''none''\<rparr>)"

definition updateProgress :: "player \<Rightarrow> player" where
  "updateProgress s =
     s\<lparr>progressFill_width := js_progress (audio_currentTime s) (duration s),
       currentTimeEl := formatTime (audio_currentTime s)\<rparr>"

section \<open>Revealing messages and tags\<close>

definition createMessageElement :: "message \<Rightarrow> message_el" where
  "createMessageElement m =
     \<lparr>className = mtype m, dataset_index = None, texts = [mtext m]\<rparr>"

definition createNewMessage :: "message \<Rightarrow> nat \<Rightarrow> player \<Rightarrow> player" where
  "createNewMessage m index s =
     (let messageEl = (createMessageElement m)\<lparr>dataset_index := Some index\<rparr>
      in s\<lparr>conversationWindow := conversationWindow s @ [messageEl],
           lastMessageElement := Some (length (conversationWindow s)),
           lastMessageType := Some (mtype m)\<rparr>)"

text \<open>The new text goes after the last text of the referenced block, and the block's
  \<open>dataset.index\<close> is overwritten. A block that is no longer in the window is changed
  without any effect on the window. Both callers test \<open>lastMessageElement\<close> first, so the
  \<open>null\<close> case does not arise through them; it is written as no change.\<close>

definition appendToExistingMessage :: "message \<Rightarrow> nat \<Rightarrow> player \<Rightarrow> player" where
  "appendToExistingMessage m index s =
     (case lastMessageElement s of
        None \<Rightarrow> s
      | Some r \<Rightarrow>
          (if r < length (conversationWindow s)
           then (let el = conversationWindow s ! r
                 in s\<lparr>conversationWindow :=
                        (conversationWindow s)
                          [r := el\<lparr>texts := texts el @ [mtext m],
                                   dataset_index := Some index\<rparr>]\<rparr>)
           else s))"

text \<open>The variant for seeking differs only in the style of the new text (no transition).\<close>

definition appendToExistingMessageForSeek :: "message \<Rightarrow> nat \<Rightarrow> player \<Rightarrow> player" where
  "appendToExistingMessageForSeek m index s =
     (case lastMessageElement s of
        None \<Rightarrow> s
      | Some r \<Rightarrow>
          (if r < length (conversationWindow s)
           then (let el = conversationWindow s ! r
                 in s\<lparr>conversationWindow :=
                        (conversationWindow s)
                          [r := el\<lparr>texts := texts el @ [mtext m],
                                   dataset_index := Some index\<rparr>]\<rparr>)
           else s))"

definition showMessage :: "message \<Rightarrow> nat \<Rightarrow> player \<Rightarrow> player" where
  "showMessage m index s =
     (let s1 = (if lastMessageElement s \<noteq> None \<and> lastMessageType s = Some (mtype m)
                then appendToExistingMessage m index s
                else createNewMessage m index s)
      in s1\<lparr>renderedMessages := insert index (renderedMessages s1)\<rparr>)"

definition showMessageForSeek :: "message \<Rightarrow> nat \<Rightarrow> player \<Rightarrow> player" where
  "showMessageForSeek m index s =
     (let s1 = (if lastMessageElement s \<noteq> None \<and> lastMessageType s = Some (mtype m)
                then appendToExistingMessageForSeek m index s
                else createNewMessage m index s)
      in s1\<lparr>renderedMessages := insert index (renderedMessages s1)\<rparr>)"

text \<open>\<open>showTag\<close> appends the badge and, when the tag reveal set has exactly one member at
  that moment, asks for the tag panel to be shown 300 ms later.\<close>

definition showTag :: "tagData \<Rightarrow> player \<Rightarrow> player" where
  "showTag td s =
     (let s1 = s\<lparr>tagsContent := tagsContent s @ [td]\<rparr>
      in if card (renderedTags s1) = 1
         then s1\<lparr>timeouts := timeouts s1 @ [(300, ShowTagsContainer)]\<rparr>
         else s1)"

definition showTagForSeek :: "tagData \<Rightarrow> nat \<Rightarrow> player \<Rightarrow> player" where
  "showTagForSeek td index s = s\<lparr>tagsContent := tagsContent s @ [td]\<rparr>"

definition updateTags :: "rat \<Rightarrow> player \<Rightarrow> player" where
  "updateTags currentTime s =
     forEach (currentTabTriggers s)
       (\<lambda>tr index s.
          if js_ge currentTime (trigger_timestamp tr) \<and> index \<notin> renderedTags s
          then (let s1 = showTag (tag tr) s
                in s1\<lparr>renderedTags := insert index (renderedTags s1)\<rparr>)
          else s)
       s"

text \<open>\<open>now\<close> is the value of \<open>performance.now()\<close> at the call.\<close>

definition updateMessages :: "rat \<Rightarrow> player \<Rightarrow> player" where
  "updateMessages now s =
     (if hasEnded s then s
      else
        (let currentTime = audio_currentTime s
         in if now - lastRenderTime s < 16 then s
            else
              (let s1 = s\<lparr>lastRenderTime := now\<rparr>;
                   s2 = forEach (conversation s1)
                          (\<lambda>m index s.
                             if js_ge currentTime (timestamp m) \<and> index \<notin> renderedMessages s
                             then showMessage m index s
                             else s)
                          s1
               in updateTags currentTime s2)))"

section \<open>Seeking, restarting, switching\<close>

text \<open>Setting \<open>audio.currentTime\<close> moves the playback position at once; \<open>time\<close> is a
  finite number (the setter accepts nothing else).\<close>

definition seekToTime :: "rat \<Rightarrow> player \<Rightarrow> player" where
  "seekToTime time s =
     (let s1 = s\<lparr>audio_currentTime := time,
                 hasEnded := False,
                 conversationWindow := [],
                 renderedMessages := {},
                 renderedTags := {},
                 tagsContent := [],
                 lastMessageElement := None,
                 lastMessageType := None\<rparr>;
          s2 = forEach (conversation s1)
                 (\<lambda>m index s. if js_ge time (timestamp m) then showMessageForSeek m index s else s)
                 s1;
          s3 = forEach (currentTabTriggers s2)
                 (\<lambda>tr index s.
                    if js_ge time (trigger_timestamp tr)
                    then (let s' = showTagForSeek (tag tr) index s
                          in s'\<lparr>renderedTags := insert index (renderedTags s')\<rparr>)
                    else s)
                 s2;
          s4 = (if 0 < card (renderedTags s3) then s3\<lparr>tagsContainer_opacity := ''1''\<rparr> else s3)
      in updateProgress s4)"

definition restartConversation :: "player \<Rightarrow> player" where
  "restartConversation s =
     (let s1 = pause s
      in s1\<lparr>audio_currentTime := 0,
            hasEnded := False,
            conversationWindow := [],
            renderedMessages := {},
            renderedTags := {},
            progressFill_width := Num 0,
            currentTimeEl := ''0:00'',
            tagsContent := [],
            tagsContainer_opacity := ''0'',
            lastMessageElement := None,
            lastMessageType := None,
            playIcon_display := ''block'',
            pauseIcon_display := ''none''\<rparr>)"

definition togglePlayPause :: "player \<Rightarrow> player" where
  "togglePlayPause s =
     (if hasEnded s then play (restartConversation s)
      else if audio_paused s then play s
      else pause s)"

text \<open>\<open>this.tagTriggers[tabId] || this.tagTriggers.tab1\<close>; the table always has \<open>tab1\<close>.\<close>

definition triggersFor :: "(string \<times> trigger list) list \<Rightarrow> string \<Rightarrow> trigger list" where
  "triggersFor table tabId =
     (case map_of table tabId of
        Some trs \<Rightarrow> trs
      | None \<Rightarrow> (case map_of table ''tab1'' of Some trs \<Rightarrow> trs | None \<Rightarrow> []))"

text \<open>The new \<open>Audio\<close> element starts paused at position 0. \<open>this.duration\<close> is not
  written here: it keeps its value until the new element reports its metadata.\<close>

definition switchConversation :: "message list \<Rightarrow> string \<Rightarrow> string \<Rightarrow> player \<Rightarrow> player" where
  "switchConversation newConversation newAudioSrc tabId s =
     (let s1 = pause s
      in s1\<lparr>conversation := newConversation,
            audioSrc := newAudioSrc,
            hasEnded := False,
            currentTabTriggers := triggersFor (tagTriggers s1) tabId,
            audio_currentTime := 0,
            audio_paused := True,
            conversationWindow := [],
            renderedMessages := {},
            renderedTags := {},
            tagsContent := [],
            tagsContainer_opacity := ''0'',
            lastMessageElement := None,
            lastMessageType := None,
            progressFill_width := Num 0,
            currentTimeEl := ''0:00'',
            totalTimeEl := ''0:00''\<rparr>)"

section \<open>Construction\<close>

text \<open>The constructor sets the instance fields, \<open>init\<close> hides the tag panel,
  \<open>setupTagTriggers\<close> installs the trigger table and selects \<open>tab1\<close>. The elements of the
  page and the state of the browser are what they are before the call: \<open>doc\<close> carries
  them, and the fields of the instance are written over it. The new \<open>Audio\<close> element
  starts paused at position 0.\<close>

definition constructor ::
  "message list \<Rightarrow> string \<Rightarrow> (string \<times> trigger list) list \<Rightarrow> player \<Rightarrow> player" where
  "constructor conversationData audioSource table doc =
     doc\<lparr>conversation := conversationData,
         audioSrc := audioSource,
         audio_currentTime := 0,
         audio_paused := True,
         renderedMessages := {},
         renderedTags := {},
         isDragging := False,
         duration := 0,
         lastRenderTime := 0,
         animationFrameId := None,
         hasEnded := False,
         lastMessageElement := None,
         lastMessageType := None,
         tagsContainer_opacity := ''0'',
         tagTriggers := table,
         currentTabTriggers := triggersFor table ''tab1''\<rparr>"

section \<open>Listeners of the media element and callbacks of the browser\<close>

text \<open>\<open>loadedmetadata\<close>, with the duration the element reports.\<close>

definition on_loadedmetadata :: "rat \<Rightarrow> player \<Rightarrow> player" where
  "on_loadedmetadata audioDuration s =
     s\<lparr>duration := audioDuration, totalTimeEl := formatTime audioDuration\<rparr>"

definition on_timeupdate :: "player \<Rightarrow> player" where
  "on_timeupdate s =
     (if \<not> isDragging s
      then (let s1 = updateProgress s;
                s2 = scheduleMessageUpdate s1
            in if duration s2 - 1 / 10 \<le> audio_currentTime s2 \<and> 0 < duration s2 \<and> \<not> hasEnded s2
               then handleAudioEnd s2
               else s2)
      else s)"

definition on_ended :: "player \<Rightarrow> player" where
  "on_ended s = handleAudioEnd s"

text \<open>The body of the loop started by \<open>startAnimationLoop\<close>: one reveal pass, then the
  callback registers itself again.\<close>

definition animate :: "rat \<Rightarrow> player \<Rightarrow> player" where
  "animate now s =
     (let s1 = updateMessages now s
      in s1\<lparr>animationFrameId := Some (Suc (rafHandles s1)),
            rafHandles := Suc (rafHandles s1)\<rparr>)"

text \<open>An animation frame runs \<open>animate\<close> if its registration has not been cancelled. The
  loop never holds more than one registration, and \<open>animationFrameId\<close> is its handle.\<close>

definition on_animationFrame :: "rat \<Rightarrow> player \<Rightarrow> player" where
  "on_animationFrame now s = (if animationFrameId s \<noteq> None then animate now s else s)"

text \<open>A frame runs one of the callbacks registered by \<open>scheduleMessageUpdate\<close>.\<close>

definition on_scheduledUpdate :: "rat \<Rightarrow> player \<Rightarrow> player" where
  "on_scheduledUpdate now s =
     (if 0 < pendingUpdates s
      then updateMessages now (s\<lparr>pendingUpdates := pendingUpdates s - 1\<rparr>)
      else s)"

fun runTimeout :: "timeout_callback \<Rightarrow> player \<Rightarrow> player" where
  "runTimeout ShowTagsContainer s = s\<lparr>tagsContainer_opacity := ''1''\<rparr>"

text \<open>The \<open>k\<close>-th pending timeout fires.\<close>

definition on_timeout :: "nat \<Rightarrow> player \<Rightarrow> player" where
  "on_timeout k s =
     (if k < length (timeouts s)
      then runTimeout (snd (timeouts s ! k))
             (s\<lparr>timeouts := take k (timeouts s) @ drop (Suc k) (timeouts s)\<rparr>)
      else s)"

text \<open>What forward playback consists of: the media element moves its position and fires
  its events, and the browser runs the registered callbacks.\<close>

datatype media_event =
    MediaTime rat
  | LoadedMetadata rat
  | TimeUpdate
  | Ended
  | AnimationFrame rat
  | ScheduledUpdate rat
  | Timeout nat

fun media_step :: "media_event \<Rightarrow> player \<Rightarrow> player" where
  "media_step (MediaTime t) s = s\<lparr>audio_currentTime := t\<rparr>"
| "media_step (LoadedMetadata d) s = on_loadedmetadata d s"
| "media_step TimeUpdate s = on_timeupdate s"
| "media_step Ended s = on_ended s"
| "media_step (AnimationFrame now) s = on_animationFrame now s"
| "media_step (ScheduledUpdate now) s = on_scheduledUpdate now s"
| "media_step (Timeout k) s = on_timeout k s"

definition playback :: "media_event list \<Rightarrow> player \<Rightarrow> player" where
  "playback es s = fold media_step es s"

section \<open>Pointer input\<close>

text \<open>A pointer event together with the bounding rectangle of the progress bar at that
  moment.\<close>

record pointer =
  clientX :: rat
  rect_left :: rat
  rect_width :: rat

text \<open>\<open>Math.max(0, Math.min(1, clickX / rect.width))\<close>. With a width of zero the quotient
  is an infinity, which the clamping turns into 1 or 0, or \<open>NaN\<close>, which stays (\<open>None\<close>).\<close>

definition percentageOf :: "pointer \<Rightarrow> rat option" where
  "percentageOf e =
     (let clickX = clientX e - rect_left e
      in if rect_width e = 0
         then (if clickX = 0 then None else if 0 < clickX then Some 1 else Some 0)
         else Some (max 0 (min 1 (clickX / rect_width e))))"

text \<open>Assigning \<open>NaN\<close> to \<open>audio.currentTime\<close> throws in the first statement of
  \<open>seekToTime\<close>, before anything is changed.\<close>

definition seekToPosition :: "pointer \<Rightarrow> player \<Rightarrow> player" where
  "seekToPosition e s =
     (case percentageOf e of
        None \<Rightarrow> s
      | Some percentage \<Rightarrow> seekToTime (percentage * duration s) s)"

definition handleDrag :: "pointer \<Rightarrow> player \<Rightarrow> player" where
  "handleDrag e s =
     (case percentageOf e of
        None \<Rightarrow> s\<lparr>progressFill_width := NaN, currentTimeEl := ''NaN:NaN''\<rparr>
      | Some percentage \<Rightarrow>
          s\<lparr>progressFill_width := Num (percentage * 100),
            currentTimeEl := formatTime (percentage * duration s)\<rparr>)"

definition handleDragEnd :: "pointer \<Rightarrow> player \<Rightarrow> player" where
  "handleDragEnd e s =
     (case percentageOf e of
        None \<Rightarrow> s
      | Some percentage \<Rightarrow> seekToTime (percentage * duration s) s)"

definition on_click_progressBar :: "pointer \<Rightarrow> player \<Rightarrow> player" where
  "on_click_progressBar e s = (if \<not> isDragging s then seekToPosition e s else s)"

definition on_mousedown_scrubber :: "player \<Rightarrow> player" where
  "on_mousedown_scrubber s = s\<lparr>isDragging := True\<rparr>"

definition on_mousemove :: "pointer \<Rightarrow> player \<Rightarrow> player" where
  "on_mousemove e s = (if isDragging s then handleDrag e s else s)"

definition on_mouseup :: "pointer \<Rightarrow> player \<Rightarrow> player" where
  "on_mouseup e s = (if isDragging s then handleDragEnd e (s\<lparr>isDragging := False\<rparr>) else s)"

section \<open>A page to run on\<close>

text \<open>An empty page with an idle browser, for running the player on concrete tracks.\<close>

definition emptyDocument :: player where
  "emptyDocument =
     \<lparr>conversation = [], audioSrc = [], audio_currentTime = 0, audio_paused = True,
      renderedMessages = {}, renderedTags = {}, isDragging = False, duration = 0,
      lastRenderTime = 0, animationFrameId = None, hasEnded = False,
      lastMessageElement = None, lastMessageType = None, tagTriggers = [],
      currentTabTriggers = [], conversationWindow = [], progressFill_width = Num 0,
      currentTimeEl = ''0:00'', totalTimeEl = ''0:00'', tagsContent = [],
      tagsContainer_opacity = ''0'', playIcon_display = ''block'',
      pauseIcon_display = ''none'', rafHandles = 0, pendingUpdates = 0, timeouts = []\<rparr>"

section \<open>The variant of script.js\<close>

text \<open>In \<open>script.js\<close> every utterance gets a block of its own, which also shows the
  formatted timestamp. The fields are those its reveal functions read or write.\<close>

record script_el =
  sel_className :: string
  sel_index :: "nat option"
  sel_text :: string
  sel_timestamp :: string

record script_player =
  sp_conversation :: "message list"
  sp_audio_currentTime :: rat
  sp_renderedMessages :: "nat set"
  sp_duration :: rat
  sp_lastRenderTime :: rat
  sp_hasEnded :: bool
  sp_conversationWindow :: "script_el list"
  sp_progressFill_width :: jsval
  sp_currentTimeEl :: string

text \<open>\<open>formatTime\<close> applied to a timestamp of the configuration.\<close>

fun formatTimestamp :: "jsval \<Rightarrow> string" where
  "formatTimestamp (Num r) = formatTime r"
| "formatTimestamp PosInfinity = ''Infinity:NaN''"
| "formatTimestamp NegInfinity = ''-Infinity:NaN''"
| "formatTimestamp NaN = ''NaN:NaN''"
| "formatTimestamp Undefined = ''NaN:NaN''"

definition createMessageElement_script :: "message \<Rightarrow> script_el" where
  "createMessageElement_script m =
     \<lparr>sel_className = mtype m, sel_index = None, sel_text = mtext m,
      sel_timestamp = formatTimestamp (timestamp m)\<rparr>"

definition showMessage_script :: "message \<Rightarrow> nat \<Rightarrow> script_player \<Rightarrow> script_player" where
  "showMessage_script m index s =
     (let messageEl = (createMessageElement_script m)\<lparr>sel_index := Some index\<rparr>
      in s\<lparr>sp_conversationWindow := sp_conversationWindow s @ [messageEl],
           sp_renderedMessages := insert index (sp_renderedMessages s)\<rparr>)"

definition updateProgress_script :: "script_player \<Rightarrow> script_player" where
  "updateProgress_script s =
     s\<lparr>sp_progressFill_width := js_progress (sp_audio_currentTime s) (sp_duration s),
       sp_currentTimeEl := formatTime (sp_audio_currentTime s)\<rparr>"

definition updateMessages_script :: "rat \<Rightarrow> script_player \<Rightarrow> script_player" where
  "updateMessages_script now s =
     (if sp_hasEnded s then s
      else
        (let currentTime = sp_audio_currentTime s
         in if now - sp_lastRenderTime s < 16 then s
            else
              (let s1 = s\<lparr>sp_lastRenderTime := now\<rparr>
               in forEach (sp_conversation s1)
                    (\<lambda>m index s.
                       if js_ge currentTime (timestamp m) \<and> index \<notin> sp_renderedMessages s
                       then showMessage_script m index s
                       else s)
                    s1)))"

definition seekToTime_script :: "rat \<Rightarrow> script_player \<Rightarrow> script_player" where
  "seekToTime_script time s =
     (let s1 = s\<lparr>sp_audio_currentTime := time,
                 sp_hasEnded := False,
                 sp_conversationWindow := [],
                 sp_renderedMessages := {}\<rparr>;
          s2 = forEach (sp_conversation s1)
                 (\<lambda>m index s. if js_ge time (timestamp m) then showMessage_script m index s else s)
                 s1
      in updateProgress_script s2)"

section \<open>Observations and example tracks\<close>

text \<open>What the user has been shown: the two reveal sets, the blocks of the conversation
  window and the badges of the tag panel.\<close>

definition transcript :: "player \<Rightarrow> nat set \<times> nat set \<times> message_el list \<times> tagData list" where
  "transcript s = (renderedMessages s, renderedTags s, conversationWindow s, tagsContent s)"

text \<open>The texts on screen, read in document order.\<close>

definition shownTexts :: "player \<Rightarrow> string list" where
  "shownTexts s = concat (map texts (conversationWindow s))"

text \<open>The grouping cursor is either unset or refers to the last block of the window.\<close>

definition cursorAtEnd :: "player \<Rightarrow> bool" where
  "cursorAtEnd s =
     (case lastMessageElement s of
        None \<Rightarrow> True
      | Some r \<Rightarrow> Suc r = length (conversationWindow s))"

text \<open>A sequence of reveals, each an utterance with its index.\<close>

definition revealAll :: "(message \<times> nat) list \<Rightarrow> player \<Rightarrow> player" where
  "revealAll ms s = fold (\<lambda>(m, index). showMessage m index) ms s"

definition groupingTrack :: "message list" where
  "groupingTrack =
     [\<lparr>mtype = ''ai'', mtext = ''one'', timestamp = Num 0\<rparr>,
      \<lparr>mtype = ''ai'', mtext = ''two'', timestamp = Num 1\<rparr>,
      \<lparr>mtype = ''user'', mtext = ''three'', timestamp = Num 2\<rparr>,
      \<lparr>mtype = ''ai'', mtext = ''four'', timestamp = Num 3\<rparr>]"

definition shortTrack :: "message list" where
  "shortTrack =
     [\<lparr>mtype = ''ai'', mtext = ''Hi'', timestamp = Num 0\<rparr>,
      \<lparr>mtype = ''ai'', mtext = ''Bye'', timestamp = Num 1\<rparr>,
      \<lparr>mtype = ''user'', mtext = ''Hey'', timestamp = Num 2\<rparr>]"

definition outOfOrderTrack :: "message list" where
  "outOfOrderTrack =
     [\<lparr>mtype = ''user'', mtext = ''late'', timestamp = Num 2\<rparr>,
      \<lparr>mtype = ''ai'', mtext = ''early'', timestamp = Num 1\<rparr>]"

definition malformedTrack :: "message list" where
  "malformedTrack =
     [\<lparr>mtype = ''ai'', mtext = ''negative'', timestamp = Num (- 1)\<rparr>,
      \<lparr>mtype = ''user'', mtext = ''not a number'', timestamp = NaN\<rparr>,
      \<lparr>mtype = ''ai'', mtext = ''infinite'', timestamp = PosInfinity\<rparr>,
      \<lparr>mtype = ''user'', mtext = ''missing'', timestamp = Undefined\<rparr>]"

text \<open>The tag triggers that \<open>setupTagTriggers\<close> installs for \<open>tab1\<close>.\<close>

definition tab1Triggers :: "trigger list" where
  "tab1Triggers =
     [\<lparr>trigger_timestamp = Num (1 / 2),
       tag = \<lparr>tag_type = ''greeting'', label = ''Custom Greeting'',
              description = ''AI introduces itself with business-specific greeting''\<rparr>\<rparr>,
      \<lparr>trigger_timestamp = Num (25 / 2),
       tag = \<lparr>tag_type = ''empathy'', label = ''AI Empathy'',
              description = ''AI shows understanding of customer's situation''\<rparr>\<rparr>,
      \<lparr>trigger_timestamp = Num 33,
       tag = \<lparr>tag_type = ''lead-intake'', label = ''Lead Intake'',
              description = ''Collecting customer information for follow-up''\<rparr>\<rparr>,
      \<lparr>trigger_timestamp = Num 25,
       tag = \<lparr>tag_type = ''probing'', label = ''Problem Probing'',
              description = ''AI asks detailed questions to understand the issue''\<rparr>\<rparr>,
      \<lparr>trigger_timestamp = Num 52,
       tag = \<lparr>tag_type = ''scheduling'', label = ''Appointment Scheduling'',
              description = ''Finding suitable time for service/consultation''\<rparr>\<rparr>,
      \<lparr>trigger_timestamp = Num (123 / 2),
       tag = \<lparr>tag_type = ''confirmation'', label = ''Appointment Confirmed'',
              description = ''Final confirmation and next steps provided''\<rparr>\<rparr>]"

text \<open>The short track with the tags of \<open>tab1\<close> on an empty page, its 64 seconds of audio
  loaded, and playback started.\<close>

definition loadedPlayer :: player where
  "loadedPlayer =
     on_loadedmetadata 64
       (constructor shortTrack ''a.mp3'' [(''tab1'', tab1Triggers)] emptyDocument)"

definition playingPlayer :: player where
  "playingPlayer = play loadedPlayer"

text \<open>The out-of-order track, its audio loaded, playing, three seconds in.\<close>

definition outOfOrderPlayer :: player where
  "outOfOrderPlayer =
     playback [MediaTime 3]
       (play (on_loadedmetadata 64 (constructor outOfOrderTrack ''a.mp3'' [] emptyDocument)))"

text \<open>Playback of the short track that is sampled twice by the animation loop, at 0.5 s
  and 1.5 s, then runs on without an animation frame (as it does while the page is in the
  background) and reaches 63.9375 s, where the next \<open>timeupdate\<close> detects the end.\<close>

definition endedPlayer :: player where
  "endedPlayer =
     playback
       [MediaTime (1 / 2), AnimationFrame 20, MediaTime (3 / 2), AnimationFrame 40,
        MediaTime (1023 / 16), TimeUpdate]
       playingPlayer"

text \<open>Playback of the short track that is sampled once, at 0.5 s, after which the user
  presses the scrubber.\<close>

definition draggingPlayer :: player where
  "draggingPlayer =
     on_mousedown_scrubber (playback [MediaTime (1 / 2), AnimationFrame 20] playingPlayer)"

section \<open>Basic facts about the reveal operations\<close>

lemma fold_preserves:
  assumes "\<And>x s. g (f x s) = g s"
  shows "g (fold f xs s) = g s"
  using assms by (induction xs arbitrary: s) simp_all

lemma forEach_preserves:
  assumes "\<And>x i s. g (f x i s) = g s"
  shows "g (forEach xs f s) = g s"
  unfolding forEach_def by (rule fold_preserves) (simp add: assms split: prod.split)

lemma fold_grows:
  assumes "\<And>x s. g s \<subseteq> g (f x s)"
  shows "g s \<subseteq> g (fold f xs s)"
proof (induction xs arbitrary: s)
  case Nil
  show ?case by simp
next
  case (Cons x xs)
  have "g s \<subseteq> g (f x s)" by (rule assms)
  also have "\<dots> \<subseteq> g (fold f xs (f x s))" by (rule Cons.IH)
  finally show ?case by simp
qed

lemma distinct_fst_enumerate: "distinct (map fst (enumerate n xs))"
  by simp

lemma due_indices_enumerate:
  "fst ` {p \<in> set (enumerate 0 xs). P (snd p)} = {i. i < length xs \<and> P (xs ! i)}"
  by (auto simp: in_set_enumerate_eq image_iff)

text \<open>With the styling left out, the reveal used while seeking is the reveal used during
  playback.\<close>

lemma showMessageForSeek_eq: "showMessageForSeek m i s = showMessage m i s"
  by (simp add: showMessageForSeek_def showMessage_def appendToExistingMessageForSeek_def
      appendToExistingMessage_def)

lemma renderedMessages_showMessage:
  "renderedMessages (showMessage m i s) = insert i (renderedMessages s)"
  by (simp add: showMessage_def appendToExistingMessage_def createNewMessage_def
      Let_def split: option.splits)

lemma conversationWindow_showMessage:
  "conversationWindow (showMessage m i s) =
     (case lastMessageElement s of
        None \<Rightarrow>
          conversationWindow s @
            [\<lparr>className = mtype m, dataset_index = Some i, texts = [mtext m]\<rparr>]
      | Some r \<Rightarrow>
          if lastMessageType s = Some (mtype m)
          then (if r < length (conversationWindow s)
                then (conversationWindow s)
                       [r := (conversationWindow s ! r)
                          \<lparr>texts := texts (conversationWindow s ! r) @ [mtext m],
                           dataset_index := Some i\<rparr>]
                else conversationWindow s)
          else conversationWindow s @
                 [\<lparr>className = mtype m, dataset_index = Some i, texts = [mtext m]\<rparr>])"
  by (simp add: showMessage_def createNewMessage_def appendToExistingMessage_def
      createMessageElement_def Let_def split: option.splits)

lemma lastMessageElement_showMessage:
  "lastMessageElement (showMessage m i s) =
     (if lastMessageElement s \<noteq> None \<and> lastMessageType s = Some (mtype m)
      then lastMessageElement s
      else Some (length (conversationWindow s)))"
  by (simp add: showMessage_def createNewMessage_def appendToExistingMessage_def
      Let_def split: option.splits)

lemma lastMessageType_showMessage:
  "lastMessageType (showMessage m i s) = Some (mtype m)"
  by (simp add: showMessage_def createNewMessage_def appendToExistingMessage_def
      Let_def split: option.splits)

lemma other_fields_showMessage:
  "tagsContent (showMessage m i s) = tagsContent s"
  "renderedTags (showMessage m i s) = renderedTags s"
  "currentTabTriggers (showMessage m i s) = currentTabTriggers s"
  "hasEnded (showMessage m i s) = hasEnded s"
  by (simp_all add: showMessage_def appendToExistingMessage_def createNewMessage_def
      Let_def split: option.splits)

lemma tagsContent_showTag: "tagsContent (showTag td s) = tagsContent s @ [td]"
  by (simp add: showTag_def Let_def)

lemma renderedTags_showTag: "renderedTags (showTag td s) = renderedTags s"
  by (simp add: showTag_def Let_def)

lemma renderedMessages_showTag: "renderedMessages (showTag td s) = renderedMessages s"
  by (simp add: showTag_def Let_def)

lemma renderedMessages_updateTags: "renderedMessages (updateTags t s) = renderedMessages s"
  unfolding updateTags_def
  by (rule forEach_preserves) (simp add: renderedMessages_showTag Let_def)

lemma conversationWindow_updateTags: "conversationWindow (updateTags t s) = conversationWindow s"
  unfolding updateTags_def
  by (rule forEach_preserves) (simp add: showTag_def Let_def)

lemma updateMessages_ended: "hasEnded s \<Longrightarrow> updateMessages now s = s"
  by (simp add: updateMessages_def)

lemma updateMessages_running:
  assumes "\<not> hasEnded s" and "16 \<le> now - lastRenderTime s"
  shows "updateMessages now s =
           updateTags (audio_currentTime s)
             (forEach (conversation s)
                (\<lambda>m index s'.
                   if js_ge (audio_currentTime s) (timestamp m) \<and> index \<notin> renderedMessages s'
                   then showMessage m index s' else s')
                (s\<lparr>lastRenderTime := now\<rparr>))"
  using assms by (simp add: updateMessages_def Let_def)

section \<open>Seeking rebuilds the reveal set\<close>

lemma fold_seek_rendered:
  "renderedMessages
     (fold (\<lambda>(i, m). \<lambda>s. if js_ge t (timestamp m) then showMessageForSeek m i s else s) ps s)
   = renderedMessages s \<union> fst ` {p \<in> set ps. js_ge t (timestamp (snd p))}"
proof (induction ps arbitrary: s)
  case Nil
  show ?case by simp
next
  case (Cons p ps)
  obtain i m where p: "p = (i, m)" by (cases p)
  show ?case
    unfolding p by (force simp: Cons.IH showMessageForSeek_eq renderedMessages_showMessage)
qed

lemma renderedMessages_seek_tags:
  "renderedMessages
     (forEach trs
        (\<lambda>tr index s.
           if js_ge time (trigger_timestamp tr)
           then (let s' = showTagForSeek (tag tr) index s
                 in s'\<lparr>renderedTags := insert index (renderedTags s')\<rparr>)
           else s) s) = renderedMessages s"
  by (rule forEach_preserves) (simp add: showTagForSeek_def Let_def)

lemma renderedMessages_seekToTime:
  "renderedMessages (seekToTime t s) =
     {i. i < length (conversation s) \<and> js_ge t (timestamp (conversation s ! i))}"
proof -
  let ?s1 = "s\<lparr>audio_currentTime := t, hasEnded := False, conversationWindow := [],
               renderedMessages := {}, renderedTags := {}, tagsContent := [],
               lastMessageElement := None, lastMessageType := None\<rparr>"
  have "renderedMessages (seekToTime t s) =
        renderedMessages
          (forEach (conversation ?s1)
             (\<lambda>m index s. if js_ge t (timestamp m) then showMessageForSeek m index s else s) ?s1)"
    by (simp add: seekToTime_def Let_def updateProgress_def renderedMessages_seek_tags)
  also have "\<dots> = fst ` {p \<in> set (enumerate 0 (conversation s)). js_ge t (timestamp (snd p))}"
    unfolding forEach_def by (simp add: fold_seek_rendered)
  also have "\<dots> = {i. i < length (conversation s) \<and> js_ge t (timestamp (conversation s ! i))}"
    by (rule due_indices_enumerate)
  finally show ?thesis .
qed

lemma fold_seek_rendered_script:
  "sp_renderedMessages
     (fold (\<lambda>(i, m). \<lambda>s. if js_ge t (timestamp m) then showMessage_script m i s else s) ps s)
   = sp_renderedMessages s \<union> fst ` {p \<in> set ps. js_ge t (timestamp (snd p))}"
proof (induction ps arbitrary: s)
  case Nil
  show ?case by simp
next
  case (Cons p ps)
  obtain i m where p: "p = (i, m)" by (cases p)
  show ?case
    unfolding p by (force simp: Cons.IH showMessage_script_def Let_def)
qed

lemma renderedMessages_seekToTime_script:
  "sp_renderedMessages (seekToTime_script t s) =
     {i. i < length (sp_conversation s) \<and> js_ge t (timestamp (sp_conversation s ! i))}"
proof -
  have "sp_renderedMessages (seekToTime_script t s) =
        fst ` {p \<in> set (enumerate 0 (sp_conversation s)). js_ge t (timestamp (snd p))}"
    by (simp add: seekToTime_script_def Let_def updateProgress_script_def forEach_def
        fold_seek_rendered_script)
  also have "\<dots> =
      {i. i < length (sp_conversation s) \<and> js_ge t (timestamp (sp_conversation s ! i))}"
    by (rule due_indices_enumerate)
  finally show ?thesis .
qed

text \<open>
  Claim C1. After \<open>seekToTime t\<close>, from any state whatever (so whatever had been revealed
  before), the message reveal set is exactly the set of indices of the conversation whose
  timestamp is at most \<open>t\<close>, the comparison being the one the code makes. This holds for
  the class with grouping and tags and for the class of \<open>script.js\<close>.
\<close>

theorem seekToTime_reveal_set:
  "renderedMessages (seekToTime t s) =
     {i. i < length (conversation s) \<and> js_ge t (timestamp (conversation s ! i))} \<and>
   sp_renderedMessages (seekToTime_script t s') =
     {i. i < length (sp_conversation s') \<and> js_ge t (timestamp (sp_conversation s' ! i))}"
  by (rule conjI) (rule renderedMessages_seekToTime, rule renderedMessages_seekToTime_script)

section \<open>Forward playback only adds to the reveal set\<close>

lemma renderedMessages_updateMessages_grows:
  "renderedMessages s \<subseteq> renderedMessages (updateMessages now s)"
proof -
  have "renderedMessages (s\<lparr>lastRenderTime := now\<rparr>) \<subseteq>
        renderedMessages
          (forEach (conversation (s\<lparr>lastRenderTime := now\<rparr>))
             (\<lambda>m index s'.
                if js_ge (audio_currentTime s) (timestamp m) \<and> index \<notin> renderedMessages s'
                then showMessage m index s' else s')
             (s\<lparr>lastRenderTime := now\<rparr>))"
    unfolding forEach_def
    by (rule fold_grows) (auto simp: renderedMessages_showMessage)
  then show ?thesis
    by (simp add: updateMessages_def Let_def renderedMessages_updateTags)
qed

lemma renderedMessages_pause: "renderedMessages (pause s) = renderedMessages s"
  by (simp add: pause_def stopAnimationLoop_def)

lemma renderedMessages_handleAudioEnd: "renderedMessages (handleAudioEnd s) = renderedMessages s"
  by (simp add: handleAudioEnd_def Let_def renderedMessages_pause)

lemma renderedMessages_on_timeupdate: "renderedMessages (on_timeupdate s) = renderedMessages s"
  by (simp add: on_timeupdate_def Let_def renderedMessages_handleAudioEnd
      updateProgress_def scheduleMessageUpdate_def)

lemma renderedMessages_on_timeout: "renderedMessages (on_timeout k s) = renderedMessages s"
  by (cases "snd (timeouts s ! k)") (simp add: on_timeout_def)

lemma renderedMessages_media_step_grows:
  "renderedMessages s \<subseteq> renderedMessages (media_step e s)"
proof (cases e)
  case (AnimationFrame now)
  then show ?thesis
    using renderedMessages_updateMessages_grows [of s now]
    by (simp add: on_animationFrame_def animate_def Let_def)
next
  case (ScheduledUpdate now)
  then show ?thesis
    using renderedMessages_updateMessages_grows
            [of "s\<lparr>pendingUpdates := pendingUpdates s - 1\<rparr>" now]
    by (simp add: on_scheduledUpdate_def)
qed (simp_all add: on_loadedmetadata_def renderedMessages_on_timeupdate on_ended_def
      renderedMessages_handleAudioEnd renderedMessages_on_timeout)

lemma renderedMessages_updateMessages_script_grows:
  "sp_renderedMessages s \<subseteq> sp_renderedMessages (updateMessages_script now s)"
proof -
  have "sp_renderedMessages (s\<lparr>sp_lastRenderTime := now\<rparr>) \<subseteq>
        sp_renderedMessages
          (forEach (sp_conversation (s\<lparr>sp_lastRenderTime := now\<rparr>))
             (\<lambda>m index s'.
                if js_ge (sp_audio_currentTime s) (timestamp m) \<and> index \<notin> sp_renderedMessages s'
                then showMessage_script m index s' else s')
             (s\<lparr>sp_lastRenderTime := now\<rparr>))"
    unfolding forEach_def
    by (rule fold_grows) (auto simp: showMessage_script_def Let_def)
  then show ?thesis
    by (simp add: updateMessages_script_def Let_def)
qed

text \<open>
  Claim C7. One pass of \<open>updateMessages\<close> never removes an index from the message reveal
  set, in the class with grouping and tags and in the class of \<open>script.js\<close>, and along
  any forward playback (the media position sampled at any times, in particular
  non-decreasing ones, with no seek in between) the reveal set after each further step
  contains the reveal set before it.
\<close>

theorem incremental_reveal_monotonic:
  "renderedMessages s \<subseteq> renderedMessages (updateMessages now s) \<and>
   renderedMessages (playback es s) \<subseteq> renderedMessages (playback (es @ [e]) s) \<and>
   sp_renderedMessages s' \<subseteq> sp_renderedMessages (updateMessages_script now s')"
  by (simp add: renderedMessages_updateMessages_grows playback_def
      renderedMessages_media_step_grows renderedMessages_updateMessages_script_grows)

section \<open>Switching the track\<close>

text \<open>
  Claim C8. After \<open>switchConversation\<close>, from any state, both reveal sets are empty, the
  grouping cursor is unset, the transcript and the tag panel are empty, the progress display
  shows 0 % and 0:00, and the ended flag is false.
\<close>

theorem switchConversation_resets:
  "renderedMessages (switchConversation c a tabId s) = {} \<and>
   renderedTags (switchConversation c a tabId s) = {} \<and>
   lastMessageElement (switchConversation c a tabId s) = None \<and>
   lastMessageType (switchConversation c a tabId s) = None \<and>
   conversationWindow (switchConversation c a tabId s) = [] \<and>
   tagsContent (switchConversation c a tabId s) = [] \<and>
   progressFill_width (switchConversation c a tabId s) = Num 0 \<and>
   currentTimeEl (switchConversation c a tabId s) = ''0:00'' \<and>
   hasEnded (switchConversation c a tabId s) = False"
  by (simp add: switchConversation_def Let_def)

text \<open>
  Claim C3, as stated, fails. The class has no validation and no error of any kind:
  switching the loaded player to a track whose four timestamps are negative, \<open>NaN\<close>,
  infinite and missing completes, and that track is the active conversation afterwards;
  the constructor accepts it as well.
\<close>

theorem switchConversation_accepts_malformed_track:
  "conversation loadedPlayer = shortTrack \<and>
   conversation (switchConversation malformedTrack ''b.mp3'' ''tab2'' loadedPlayer)
     = malformedTrack \<and>
   malformedTrack \<noteq> shortTrack \<and>
   conversation (constructor malformedTrack ''b.mp3'' [] emptyDocument) = malformedTrack"
  by code_simp

lemma fields_pause: "tagTriggers (pause s) = tagTriggers s"
  by (simp add: pause_def stopAnimationLoop_def)

text \<open>
  Claim C3, amended. Loading or switching to a track validates nothing: for every
  configuration, well-formed or not, the operation completes without an error (it has no
  failing branch) and installs the given conversation and audio source as the active
  session.
\<close>

theorem switchConversation_installs_any_track:
  "conversation (switchConversation c a tabId s) = c \<and>
   audioSrc (switchConversation c a tabId s) = a \<and>
   currentTabTriggers (switchConversation c a tabId s) = triggersFor (tagTriggers s) tabId \<and>
   conversation (constructor c a table doc) = c \<and>
   audioSrc (constructor c a table doc) = a"
  by (simp add: switchConversation_def constructor_def Let_def fields_pause)

section \<open>Grouping of consecutive utterances\<close>

lemma revealAll_snoc: "revealAll (ms @ [(m, i)]) s = showMessage m i (revealAll ms s)"
  by (simp add: revealAll_def)

lemma revealAll_cursor:
  assumes "lastMessageElement s0 = None" and "conversationWindow s0 = []"
  shows "(if ms = []
          then lastMessageElement (revealAll ms s0) = None \<and>
               conversationWindow (revealAll ms s0) = []
          else conversationWindow (revealAll ms s0) \<noteq> [] \<and>
               lastMessageElement (revealAll ms s0) =
                 Some (length (conversationWindow (revealAll ms s0)) - 1) \<and>
               lastMessageType (revealAll ms s0) = Some (mtype (fst (last ms))))"
proof (induction ms rule: rev_induct)
  case Nil
  show ?case using assms by (simp add: revealAll_def)
next
  case (snoc p ms)
  obtain m i where p: "p = (m, i)" by (cases p)
  show ?case
    using snoc.IH unfolding p revealAll_snoc
    by (auto simp: conversationWindow_showMessage lastMessageElement_showMessage
        lastMessageType_showMessage split: if_splits)
qed

lemma grouping_after_reset:
  assumes "lastMessageElement s0 = None" and "conversationWindow s0 = []"
  shows "length (conversationWindow (showMessage m i (revealAll ms s0))) =
           (if ms = [] \<or> mtype (fst (last ms)) \<noteq> mtype m
            then Suc (length (conversationWindow (revealAll ms s0)))
            else length (conversationWindow (revealAll ms s0)))"
  using revealAll_cursor [OF assms, of ms]
  by (auto simp: conversationWindow_showMessage split: if_splits)

lemma restart_is_reset:
  "lastMessageElement (restartConversation s) = None \<and>
   conversationWindow (restartConversation s) = []"
  by (simp add: restartConversation_def Let_def)

lemma grouping_example:
  assumes "lastMessageElement s0 = None" and "conversationWindow s0 = []"
  shows "map texts (conversationWindow (revealAll (zip groupingTrack [0, 1, 2, 3]) s0)) =
     [[''one'', ''two''], [''three''], [''four'']]"
  using assms
  by (simp add: revealAll_def groupingTrack_def conversationWindow_showMessage
      lastMessageElement_showMessage lastMessageType_showMessage)

lemma grouping_example_seek:
  "map texts (conversationWindow
     (seekToTime 3 (constructor groupingTrack ''a.mp3'' [] emptyDocument))) =
     [[''one'', ''two''], [''three''], [''four'']]"
  by code_simp

text \<open>
  Claim C4. After a reset, and after any sequence \<open>ms\<close> of reveals, revealing one more
  utterance adds a block to the conversation window exactly when nothing has been revealed
  yet or the speaker differs from the speaker of the utterance revealed last; otherwise the
  number of blocks stays. The reveal used while seeking decides in the same way. Revealing
  AI, AI, USER, AI, one by one after a restart or all at once by a seek, gives three
  blocks, the first with two texts.
\<close>

theorem new_block_iff_speaker_changes:
  "length (conversationWindow (showMessage m i (revealAll ms (restartConversation s0)))) =
     (if ms = [] \<or> mtype (fst (last ms)) \<noteq> mtype m
      then Suc (length (conversationWindow (revealAll ms (restartConversation s0))))
      else length (conversationWindow (revealAll ms (restartConversation s0)))) \<and>
   showMessageForSeek m i s = showMessage m i s \<and>
   map texts (conversationWindow
     (revealAll (zip groupingTrack [0, 1, 2, 3]) (restartConversation s0))) =
     [[''one'', ''two''], [''three''], [''four'']] \<and>
   map texts (conversationWindow
     (seekToTime 3 (constructor groupingTrack ''a.mp3'' [] emptyDocument))) =
     [[''one'', ''two''], [''three''], [''four'']]"
  using grouping_after_reset [of "restartConversation s0" m i ms] restart_is_reset [of s0]
    grouping_example [of "restartConversation s0"] grouping_example_seek
  by (simp add: showMessageForSeek_eq)

section \<open>The order in which a pass reveals\<close>

text \<open>
  Claim C2, as stated, fails. Nothing in the class sorts: both passes walk the list with
  \<open>forEach\<close>. On a track whose first utterance has timestamp 2 and whose second has
  timestamp 1, a seek to 3 and an incremental pass at 3 both reveal the utterance with
  timestamp 2 first: the blocks of the window, in document order, are utterance 0 and then
  utterance 1. The class's own tag table for \<open>tab1\<close> is such a list (its third trigger is
  at 33 s, its fourth at 25 s), and a seek to 40 s emits the badge of the trigger at 33 s
  before the badge of the trigger at 25 s.
\<close>

theorem reveal_pass_not_sorted_by_timestamp:
  "map timestamp outOfOrderTrack = [Num 2, Num 1] \<and>
   conversationWindow (seekToTime 3 outOfOrderPlayer) =
     [\<lparr>className = ''user'', dataset_index = Some 0, texts = [''late'']\<rparr>,
      \<lparr>className = ''ai'', dataset_index = Some 1, texts = [''early'']\<rparr>] \<and>
   conversationWindow (updateMessages 100 outOfOrderPlayer) =
     [\<lparr>className = ''user'', dataset_index = Some 0, texts = [''late'']\<rparr>,
      \<lparr>className = ''ai'', dataset_index = Some 1, texts = [''early'']\<rparr>] \<and>
   map trigger_timestamp tab1Triggers =
     [Num (1 / 2), Num (25 / 2), Num 33, Num 25, Num 52, Num (123 / 2)] \<and>
   map tag_type (tagsContent (seekToTime 40 playingPlayer)) =
     [''greeting'', ''empathy'', ''lead-intake'', ''probing'']"
  by code_simp

lemma concat_texts_update_last:
  assumes "Suc r = length w"
  shows "concat (map texts (w[r := (w ! r)\<lparr>texts := texts (w ! r) @ [x], dataset_index := d\<rparr>])) =
         concat (map texts w) @ [x]"
proof -
  from assms obtain ys y where w: "w = ys @ [y]" and r: "r = length ys"
    by (cases w rule: rev_cases) auto
  show ?thesis unfolding w r by simp
qed

text \<open>With the cursor on the last block, a reveal puts its text at the very end of the
  transcript and leaves the cursor on the last block.\<close>

lemma showMessage_in_order:
  assumes "cursorAtEnd s"
  shows "cursorAtEnd (showMessage m i s) \<and>
         shownTexts (showMessage m i s) = shownTexts s @ [mtext m]"
proof (cases "lastMessageElement s")
  case None
  then show ?thesis
    by (simp add: cursorAtEnd_def shownTexts_def conversationWindow_showMessage
        lastMessageElement_showMessage)
next
  case (Some r)
  with assms have r: "Suc r = length (conversationWindow s)"
    by (simp add: cursorAtEnd_def)
  then have "r < length (conversationWindow s)" by simp
  with Some r show ?thesis
    by (simp add: cursorAtEnd_def shownTexts_def conversationWindow_showMessage
        lastMessageElement_showMessage concat_texts_update_last)
qed

lemma fold_seek_in_order:
  assumes "cursorAtEnd s"
  shows "cursorAtEnd
           (fold (\<lambda>(i, m). \<lambda>s. if js_ge t (timestamp m) then showMessageForSeek m i s else s)
              ps s) \<and>
         shownTexts
           (fold (\<lambda>(i, m). \<lambda>s. if js_ge t (timestamp m) then showMessageForSeek m i s else s)
              ps s) =
           shownTexts s @ map mtext (filter (\<lambda>m. js_ge t (timestamp m)) (map snd ps))"
  using assms
proof (induction ps arbitrary: s)
  case Nil
  then show ?case by simp
next
  case (Cons p ps)
  obtain i m where p: "p = (i, m)" by (cases p)
  show ?case
  proof (cases "js_ge t (timestamp m)")
    case True
    from showMessage_in_order [OF Cons.prems, of m i]
    have step: "cursorAtEnd (showMessageForSeek m i s)"
      "shownTexts (showMessageForSeek m i s) = shownTexts s @ [mtext m]"
      by (simp_all add: showMessageForSeek_eq)
    from Cons.IH [OF step(1)] step(2) True show ?thesis
      unfolding p by simp
  next
    case False
    with Cons.IH [OF Cons.prems] show ?thesis
      unfolding p by simp
  qed
qed

text \<open>In the incremental pass the test reads the reveal set as it is when the element is
  reached; since every index occurs once, that is the reveal set the pass started with.\<close>

lemma fold_incremental_in_order:
  assumes "cursorAtEnd s" and "distinct (map fst ps)"
  shows "cursorAtEnd
           (fold (\<lambda>(i, m). \<lambda>s. if js_ge t (timestamp m) \<and> i \<notin> renderedMessages s
                                 then showMessage m i s else s) ps s) \<and>
         shownTexts
           (fold (\<lambda>(i, m). \<lambda>s. if js_ge t (timestamp m) \<and> i \<notin> renderedMessages s
                                 then showMessage m i s else s) ps s) =
           shownTexts s @
           map (mtext \<circ> snd)
             (filter (\<lambda>(i, m). js_ge t (timestamp m) \<and> i \<notin> renderedMessages s) ps)"
  using assms
proof (induction ps arbitrary: s)
  case Nil
  then show ?case by simp
next
  case (Cons p ps)
  obtain i m where p: "p = (i, m)" by (cases p)
  from Cons.prems(2) have fresh: "\<And>q. q \<in> set ps \<Longrightarrow> fst q \<noteq> i"
    and dist: "distinct (map fst ps)"
    unfolding p by auto
  show ?case
  proof (cases "js_ge t (timestamp m) \<and> i \<notin> renderedMessages s")
    case True
    from showMessage_in_order [OF Cons.prems(1), of m i]
    have step: "cursorAtEnd (showMessage m i s)"
      "shownTexts (showMessage m i s) = shownTexts s @ [mtext m]"
      by simp_all
    have same:
      "filter (\<lambda>(j, m'). js_ge t (timestamp m') \<and> j \<notin> renderedMessages (showMessage m i s)) ps =
       filter (\<lambda>(j, m'). js_ge t (timestamp m') \<and> j \<notin> renderedMessages s) ps"
      by (rule filter_cong) (use fresh in \<open>force simp: renderedMessages_showMessage\<close>)+
    from Cons.IH [OF step(1) dist] step(2) True same show ?thesis
      unfolding p by simp
  next
    case False
    with Cons.IH [OF Cons.prems(1) dist] show ?thesis
      unfolding p by auto
  qed
qed

lemma forEach_incremental_in_order:
  assumes "cursorAtEnd s"
  shows "cursorAtEnd
           (forEach ms
              (\<lambda>m index s. if js_ge t (timestamp m) \<and> index \<notin> renderedMessages s
                             then showMessage m index s else s) s) \<and>
         shownTexts
           (forEach ms
              (\<lambda>m index s. if js_ge t (timestamp m) \<and> index \<notin> renderedMessages s
                             then showMessage m index s else s) s) =
         shownTexts s @
         map (mtext \<circ> snd)
           (filter (\<lambda>(i, m). js_ge t (timestamp m) \<and> i \<notin> renderedMessages s)
              (enumerate 0 ms))"
  unfolding forEach_def
  using fold_incremental_in_order [OF assms distinct_fst_enumerate, of t 0 ms] by simp

lemma conversationWindow_seek_tags:
  "conversationWindow
     (forEach trs
        (\<lambda>tr index s.
           if js_ge time (trigger_timestamp tr)
           then (let s' = showTagForSeek (tag tr) index s
                 in s'\<lparr>renderedTags := insert index (renderedTags s')\<rparr>)
           else s) s) = conversationWindow s"
  by (rule forEach_preserves) (simp add: showTagForSeek_def Let_def)

lemma conversationWindow_seekToTime:
  "conversationWindow (seekToTime t s) =
     conversationWindow
       (forEach (conversation s)
          (\<lambda>m index s. if js_ge t (timestamp m) then showMessageForSeek m index s else s)
          (s\<lparr>audio_currentTime := t, hasEnded := False, conversationWindow := [],
             renderedMessages := {}, renderedTags := {}, tagsContent := [],
             lastMessageElement := None, lastMessageType := None\<rparr>))"
  by (simp add: seekToTime_def Let_def updateProgress_def conversationWindow_seek_tags)

lemma shownTexts_seekToTime:
  "shownTexts (seekToTime t s) =
     map mtext (filter (\<lambda>m. js_ge t (timestamp m)) (conversation s))"
proof -
  let ?s1 = "s\<lparr>audio_currentTime := t, hasEnded := False, conversationWindow := [],
               renderedMessages := {}, renderedTags := {}, tagsContent := [],
               lastMessageElement := None, lastMessageType := None\<rparr>"
  have start: "cursorAtEnd ?s1" "shownTexts ?s1 = []"
    by (simp_all add: cursorAtEnd_def shownTexts_def)
  have "shownTexts (seekToTime t s) =
        shownTexts
          (forEach (conversation s)
             (\<lambda>m index s. if js_ge t (timestamp m) then showMessageForSeek m index s else s) ?s1)"
    by (simp add: shownTexts_def conversationWindow_seekToTime)
  also have "\<dots> =
      map mtext (filter (\<lambda>m. js_ge t (timestamp m)) (map snd (enumerate 0 (conversation s))))"
    unfolding forEach_def using fold_seek_in_order [OF start(1)] start(2) by simp
  finally show ?thesis by simp
qed

lemma fold_seek_tags_content:
  "tagsContent
     (fold (\<lambda>(i, tr). \<lambda>s. if js_ge t (trigger_timestamp tr)
                            then (let s' = showTagForSeek (tag tr) i s
                                  in s'\<lparr>renderedTags := insert i (renderedTags s')\<rparr>)
                            else s) ps s) =
   tagsContent s @ map tag (filter (\<lambda>tr. js_ge t (trigger_timestamp tr)) (map snd ps))"
proof (induction ps arbitrary: s)
  case Nil
  show ?case by simp
next
  case (Cons p ps)
  obtain i tr where p: "p = (i, tr)" by (cases p)
  show ?case unfolding p by (simp add: Cons.IH showTagForSeek_def Let_def)
qed

lemma forEach_seek_tags_content:
  "tagsContent
     (forEach trs
        (\<lambda>tr index s.
           if js_ge t (trigger_timestamp tr)
           then (let s' = showTagForSeek (tag tr) index s
                 in s'\<lparr>renderedTags := insert index (renderedTags s')\<rparr>)
           else s) s) =
   tagsContent s @ map tag (filter (\<lambda>tr. js_ge t (trigger_timestamp tr)) trs)"
  unfolding forEach_def by (simp add: fold_seek_tags_content)

lemma tagsContent_seekToTime:
  "tagsContent (seekToTime t s) =
     map tag (filter (\<lambda>tr. js_ge t (trigger_timestamp tr)) (currentTabTriggers s))"
proof -
  let ?s1 = "s\<lparr>audio_currentTime := t, hasEnded := False, conversationWindow := [],
               renderedMessages := {}, renderedTags := {}, tagsContent := [],
               lastMessageElement := None, lastMessageType := None\<rparr>"
  let ?s2 = "forEach (conversation s)
             (\<lambda>m index s. if js_ge t (timestamp m) then showMessageForSeek m index s else s) ?s1"
  have s2: "tagsContent ?s2 = []" "currentTabTriggers ?s2 = currentTabTriggers s"
    by (simp_all add: forEach_preserves showMessageForSeek_eq other_fields_showMessage)
  have "tagsContent (seekToTime t s) =
        tagsContent
          (forEach (currentTabTriggers ?s2)
             (\<lambda>tr index s.
                if js_ge t (trigger_timestamp tr)
                then (let s' = showTagForSeek (tag tr) index s
                      in s'\<lparr>renderedTags := insert index (renderedTags s')\<rparr>)
                else s) ?s2)"
    by (simp add: seekToTime_def Let_def updateProgress_def)
  also have "\<dots> =
      map tag (filter (\<lambda>tr. js_ge t (trigger_timestamp tr)) (currentTabTriggers s))"
    by (simp only: forEach_seek_tags_content s2) simp
  finally show ?thesis .
qed

lemma fold_incremental_tags:
  assumes "distinct (map fst ps)"
  shows "tagsContent
           (fold (\<lambda>(i, tr). \<lambda>s. if js_ge t (trigger_timestamp tr) \<and> i \<notin> renderedTags s
                                  then (let s1 = showTag (tag tr) s
                                        in s1\<lparr>renderedTags := insert i (renderedTags s1)\<rparr>)
                                  else s) ps s) =
         tagsContent s @
         map (tag \<circ> snd)
           (filter (\<lambda>(i, tr). js_ge t (trigger_timestamp tr) \<and> i \<notin> renderedTags s) ps)"
  using assms
proof (induction ps arbitrary: s)
  case Nil
  show ?case by simp
next
  case (Cons p ps)
  obtain i tr where p: "p = (i, tr)" by (cases p)
  from Cons.prems have fresh: "\<And>q. q \<in> set ps \<Longrightarrow> fst q \<noteq> i"
    and dist: "distinct (map fst ps)"
    unfolding p by auto
  show ?case
  proof (cases "js_ge t (trigger_timestamp tr) \<and> i \<notin> renderedTags s")
    case True
    let ?s' = "(showTag (tag tr) s)\<lparr>renderedTags := insert i (renderedTags (showTag (tag tr) s))\<rparr>"
    have same:
      "filter (\<lambda>(j, tr'). js_ge t (trigger_timestamp tr') \<and> j \<notin> renderedTags ?s') ps =
       filter (\<lambda>(j, tr'). js_ge t (trigger_timestamp tr') \<and> j \<notin> renderedTags s) ps"
      by (rule filter_cong) (use fresh in \<open>force simp: renderedTags_showTag\<close>)+
    have "tagsContent ?s' = tagsContent s @ [tag tr]"
      by (simp add: tagsContent_showTag)
    with Cons.IH [OF dist, of ?s'] True same show ?thesis
      unfolding p by (simp add: Let_def)
  next
    case False
    with Cons.IH [OF dist, of s] show ?thesis
      unfolding p by auto
  qed
qed

lemma tagsContent_updateTags:
  "tagsContent (updateTags t s) =
     tagsContent s @
     map (tag \<circ> snd)
       (filter (\<lambda>(i, tr). js_ge t (trigger_timestamp tr) \<and> i \<notin> renderedTags s)
          (enumerate 0 (currentTabTriggers s)))"
  unfolding updateTags_def forEach_def
  using fold_incremental_tags [OF distinct_fst_enumerate, of t 0 "currentTabTriggers s" s]
  by simp

lemma updateMessages_in_order:
  assumes "cursorAtEnd s" and "\<not> hasEnded s" and "16 \<le> now - lastRenderTime s"
  shows "shownTexts (updateMessages now s) =
           shownTexts s @
           map (mtext \<circ> snd)
             (filter (\<lambda>(i, m). js_ge (audio_currentTime s) (timestamp m) \<and>
                                i \<notin> renderedMessages s)
                (enumerate 0 (conversation s)))"
    and "tagsContent (updateMessages now s) =
           tagsContent s @
           map (tag \<circ> snd)
             (filter (\<lambda>(i, tr). js_ge (audio_currentTime s) (trigger_timestamp tr) \<and>
                                 i \<notin> renderedTags s)
                (enumerate 0 (currentTabTriggers s)))"
proof -
  let ?s1 = "s\<lparr>lastRenderTime := now\<rparr>"
  let ?f = "\<lambda>m index s'.
              if js_ge (audio_currentTime s) (timestamp m) \<and> index \<notin> renderedMessages s'
              then showMessage m index s' else s'"
  let ?s2 = "forEach (conversation s) ?f ?s1"
  have run: "updateMessages now s = updateTags (audio_currentTime s) ?s2"
    by (rule updateMessages_running [OF assms(2,3)])
  have c1: "cursorAtEnd ?s1"
    using assms(1) by (simp add: cursorAtEnd_def split: option.splits)
  have "shownTexts (updateMessages now s) = shownTexts ?s2"
    unfolding run by (simp add: shownTexts_def conversationWindow_updateTags)
  also have "\<dots> = shownTexts ?s1 @
           map (mtext \<circ> snd)
             (filter (\<lambda>(i, m). js_ge (audio_currentTime s) (timestamp m) \<and>
                                i \<notin> renderedMessages ?s1)
                (enumerate 0 (conversation s)))"
    using forEach_incremental_in_order [OF c1] by blast
  finally show "shownTexts (updateMessages now s) =
           shownTexts s @
           map (mtext \<circ> snd)
             (filter (\<lambda>(i, m). js_ge (audio_currentTime s) (timestamp m) \<and>
                                i \<notin> renderedMessages s)
                (enumerate 0 (conversation s)))"
    by (simp add: shownTexts_def)
  have s2: "tagsContent ?s2 = tagsContent s" "renderedTags ?s2 = renderedTags s"
    "currentTabTriggers ?s2 = currentTabTriggers s"
    by (simp_all add: forEach_preserves other_fields_showMessage)
  show "tagsContent (updateMessages now s) =
           tagsContent s @
           map (tag \<circ> snd)
             (filter (\<lambda>(i, tr). js_ge (audio_currentTime s) (trigger_timestamp tr) \<and>
                                 i \<notin> renderedTags s)
                (enumerate 0 (currentTabTriggers s)))"
    unfolding run by (simp only: tagsContent_updateTags s2)
qed

text \<open>
  Claim C2, amended. Each reveal pass emits the due events in the order of the input list.
  After \<open>seekToTime\<close> the texts on screen are those of the due utterances, in list order,
  and the badges those of the due tags, in list order. A pass of \<open>updateMessages\<close> that
  runs (playback not ended, not throttled) from a state whose grouping cursor is unset or on
  the last block appends the texts of the due utterances not yet revealed, in list order,
  and the badges of the due tags not yet revealed, in list order.
\<close>

theorem reveal_pass_emits_in_input_order:
  "shownTexts (seekToTime t s) =
     map mtext (filter (\<lambda>m. js_ge t (timestamp m)) (conversation s)) \<and>
   tagsContent (seekToTime t s) =
     map tag (filter (\<lambda>tr. js_ge t (trigger_timestamp tr)) (currentTabTriggers s)) \<and>
   (cursorAtEnd s \<and> \<not> hasEnded s \<and> 16 \<le> now - lastRenderTime s \<longrightarrow>
      shownTexts (updateMessages now s) =
        shownTexts s @
        map (mtext \<circ> snd)
          (filter (\<lambda>(i, m). js_ge (audio_currentTime s) (timestamp m) \<and>
                             i \<notin> renderedMessages s)
             (enumerate 0 (conversation s))) \<and>
      tagsContent (updateMessages now s) =
        tagsContent s @
        map (tag \<circ> snd)
          (filter (\<lambda>(i, tr). js_ge (audio_currentTime s) (trigger_timestamp tr) \<and>
                              i \<notin> renderedTags s)
             (enumerate 0 (currentTabTriggers s))))"
  using updateMessages_in_order [of s now]
  by (simp add: shownTexts_seekToTime tagsContent_seekToTime)

theorem reveal_pass_emits_in_input_order_witness:
  "cursorAtEnd outOfOrderPlayer \<and> \<not> hasEnded outOfOrderPlayer \<and>
   16 \<le> 100 - lastRenderTime outOfOrderPlayer \<and>
   shownTexts (seekToTime 3 outOfOrderPlayer) = [''late'', ''early''] \<and>
   shownTexts (updateMessages 100 outOfOrderPlayer) = [''late'', ''early'']"
proof -
  have hyp: "cursorAtEnd outOfOrderPlayer \<and> \<not> hasEnded outOfOrderPlayer \<and>
             16 \<le> 100 - lastRenderTime outOfOrderPlayer"
    by code_simp
  have seek: "map mtext (filter (\<lambda>m. js_ge 3 (timestamp m)) (conversation outOfOrderPlayer)) =
              [''late'', ''early'']"
    by code_simp
  have pass: "shownTexts outOfOrderPlayer @
        map (mtext \<circ> snd)
          (filter (\<lambda>(i, m). js_ge (audio_currentTime outOfOrderPlayer) (timestamp m) \<and>
                             i \<notin> renderedMessages outOfOrderPlayer)
             (enumerate 0 (conversation outOfOrderPlayer))) = [''late'', ''early'']"
    by code_simp
  show ?thesis
    using reveal_pass_emits_in_input_order [of 3 outOfOrderPlayer 100] hyp seek pass
    by simp
qed

text \<open>The condition on the cursor holds from construction on: every operation that empties
  the window unsets the cursor, and every reveal leaves it on the last block.\<close>

lemma cursorAtEnd_constructor: "cursorAtEnd (constructor c a table doc)"
  by (simp add: cursorAtEnd_def constructor_def)

lemma cursorAtEnd_resets:
  "cursorAtEnd (restartConversation s)"
  "cursorAtEnd (switchConversation c a tabId s)"
  by (simp_all add: cursorAtEnd_def restartConversation_def switchConversation_def Let_def)

lemma cursorAtEnd_updateTags: "cursorAtEnd (updateTags t s) = cursorAtEnd s"
proof -
  have "lastMessageElement (updateTags t s) = lastMessageElement s"
    unfolding updateTags_def by (rule forEach_preserves) (simp add: showTag_def Let_def)
  then show ?thesis
    by (simp add: cursorAtEnd_def conversationWindow_updateTags split: option.splits)
qed

lemma cursorAtEnd_updateMessages:
  assumes "cursorAtEnd s"
  shows "cursorAtEnd (updateMessages now s)"
proof (cases "\<not> hasEnded s \<and> 16 \<le> now - lastRenderTime s")
  case True
  have c1: "cursorAtEnd (s\<lparr>lastRenderTime := now\<rparr>)"
    using assms by (simp add: cursorAtEnd_def split: option.splits)
  from True show ?thesis
    using forEach_incremental_in_order [OF c1]
    by (simp add: updateMessages_running cursorAtEnd_updateTags)
next
  case False
  with assms show ?thesis
    by (auto simp: updateMessages_def Let_def)
qed

lemma cursorAtEnd_cong:
  assumes "lastMessageElement s' = lastMessageElement s"
    and "conversationWindow s' = conversationWindow s"
  shows "cursorAtEnd s' = cursorAtEnd s"
  using assms by (simp add: cursorAtEnd_def split: option.splits)

lemma lastMessageElement_seek_tags:
  "lastMessageElement
     (forEach trs
        (\<lambda>tr index s.
           if js_ge time (trigger_timestamp tr)
           then (let s' = showTagForSeek (tag tr) index s
                 in s'\<lparr>renderedTags := insert index (renderedTags s')\<rparr>)
           else s) s) = lastMessageElement s"
  by (rule forEach_preserves) (simp add: showTagForSeek_def Let_def)

lemma cursorAtEnd_seekToTime: "cursorAtEnd (seekToTime t s)"
proof -
  let ?s1 = "s\<lparr>audio_currentTime := t, hasEnded := False, conversationWindow := [],
               renderedMessages := {}, renderedTags := {}, tagsContent := [],
               lastMessageElement := None, lastMessageType := None\<rparr>"
  let ?s2 = "forEach (conversation s)
               (\<lambda>m index s. if js_ge t (timestamp m) then showMessageForSeek m index s else s) ?s1"
  have start: "cursorAtEnd ?s1"
    by (simp add: cursorAtEnd_def)
  have s2: "cursorAtEnd ?s2"
    unfolding forEach_def using fold_seek_in_order [OF start] by simp
  have "lastMessageElement (seekToTime t s) = lastMessageElement ?s2"
    by (simp add: seekToTime_def Let_def updateProgress_def lastMessageElement_seek_tags)
  moreover have "conversationWindow (seekToTime t s) = conversationWindow ?s2"
    by (rule conversationWindow_seekToTime)
  ultimately have "cursorAtEnd (seekToTime t s) = cursorAtEnd ?s2"
    by (rule cursorAtEnd_cong)
  with s2 show ?thesis by simp
qed

lemma cursorAtEnd_pause: "cursorAtEnd (pause s) = cursorAtEnd s"
  by (rule cursorAtEnd_cong) (simp_all add: pause_def stopAnimationLoop_def)

lemma cursorAtEnd_handleAudioEnd: "cursorAtEnd (handleAudioEnd s) = cursorAtEnd s"
  by (rule cursorAtEnd_cong) (simp_all add: handleAudioEnd_def Let_def pause_def stopAnimationLoop_def)

lemma cursorAtEnd_on_timeupdate: "cursorAtEnd (on_timeupdate s) = cursorAtEnd s"
  by (rule cursorAtEnd_cong)
     (simp_all add: on_timeupdate_def Let_def updateProgress_def scheduleMessageUpdate_def
        handleAudioEnd_def pause_def stopAnimationLoop_def)

lemma cursorAtEnd_on_timeout: "cursorAtEnd (on_timeout k s) = cursorAtEnd s"
  by (rule cursorAtEnd_cong; cases "snd (timeouts s ! k)") (simp_all add: on_timeout_def)

lemma cursorAtEnd_media_step:
  assumes "cursorAtEnd s"
  shows "cursorAtEnd (media_step e s)"
proof (cases e)
  case (MediaTime t)
  have "cursorAtEnd (s\<lparr>audio_currentTime := t\<rparr>) = cursorAtEnd s"
    by (rule cursorAtEnd_cong) simp_all
  with assms MediaTime show ?thesis by simp
next
  case (LoadedMetadata d)
  have "cursorAtEnd (on_loadedmetadata d s) = cursorAtEnd s"
    by (rule cursorAtEnd_cong) (simp_all add: on_loadedmetadata_def)
  with assms LoadedMetadata show ?thesis by simp
next
  case TimeUpdate
  with assms show ?thesis by (simp add: cursorAtEnd_on_timeupdate)
next
  case Ended
  with assms show ?thesis by (simp add: on_ended_def cursorAtEnd_handleAudioEnd)
next
  case (AnimationFrame now)
  let ?s1 = "updateMessages now s"
  have "cursorAtEnd (?s1\<lparr>animationFrameId := Some (Suc (rafHandles ?s1)),
                         rafHandles := Suc (rafHandles ?s1)\<rparr>) = cursorAtEnd ?s1"
    by (rule cursorAtEnd_cong) simp_all
  with assms AnimationFrame cursorAtEnd_updateMessages [OF assms, of now] show ?thesis
    by (simp add: on_animationFrame_def animate_def Let_def)
next
  case (ScheduledUpdate now)
  have "cursorAtEnd (s\<lparr>pendingUpdates := pendingUpdates s - 1\<rparr>)"
    using assms by (simp add: cursorAtEnd_def split: option.splits)
  from cursorAtEnd_updateMessages [OF this, of now] assms ScheduledUpdate show ?thesis
    by (simp add: on_scheduledUpdate_def)
next
  case (Timeout k)
  with assms show ?thesis by (simp add: cursorAtEnd_on_timeout)
qed

lemma cursorAtEnd_playback: "cursorAtEnd s \<Longrightarrow> cursorAtEnd (playback es s)"
  unfolding playback_def
  by (induction es arbitrary: s) (simp_all add: cursorAtEnd_media_step)

section \<open>The end of the media\<close>

lemma transcript_pause: "transcript (pause s) = transcript s"
  by (simp add: transcript_def pause_def stopAnimationLoop_def)

lemma hasEnded_pause: "hasEnded (pause s) = hasEnded s"
  by (simp add: pause_def stopAnimationLoop_def)

lemma handleAudioEnd_transcript:
  "transcript (handleAudioEnd s) = transcript s \<and> hasEnded (handleAudioEnd s)"
  using transcript_pause [of "s\<lparr>hasEnded := True\<rparr>"] hasEnded_pause [of "s\<lparr>hasEnded := True\<rparr>"]
  by (simp add: handleAudioEnd_def Let_def transcript_def)

lemma ended_on_timeupdate:
  "hasEnded s \<Longrightarrow> hasEnded (on_timeupdate s) \<and> transcript (on_timeupdate s) = transcript s"
  by (simp add: on_timeupdate_def Let_def updateProgress_def scheduleMessageUpdate_def
      transcript_def)

lemma ended_on_timeout:
  "hasEnded (on_timeout k s) = hasEnded s \<and> transcript (on_timeout k s) = transcript s"
  by (cases "snd (timeouts s ! k)") (simp add: on_timeout_def transcript_def)

lemma ended_media_step:
  assumes "hasEnded s"
  shows "hasEnded (media_step e s) \<and> transcript (media_step e s) = transcript s"
proof (cases e)
  case (AnimationFrame now)
  with assms show ?thesis
    by (simp add: on_animationFrame_def animate_def Let_def updateMessages_ended transcript_def)
next
  case (ScheduledUpdate now)
  with assms show ?thesis
    by (simp add: on_scheduledUpdate_def updateMessages_ended transcript_def)
next
  case TimeUpdate
  with assms show ?thesis by (simp add: ended_on_timeupdate)
next
  case Ended
  with assms show ?thesis by (simp add: on_ended_def handleAudioEnd_transcript)
next
  case (Timeout k)
  with assms show ?thesis by (simp add: ended_on_timeout)
qed (use assms in \<open>simp_all add: on_loadedmetadata_def transcript_def\<close>)

lemma ended_playback:
  "hasEnded s \<Longrightarrow> hasEnded (playback es s) \<and> transcript (playback es s) = transcript s"
proof (induction es arbitrary: s)
  case Nil
  then show ?case by (simp add: playback_def)
next
  case (Cons e es)
  from Cons.prems have step: "hasEnded (media_step e s)"
    "transcript (media_step e s) = transcript s"
    using ended_media_step by blast+
  from Cons.IH [OF step(1)] step(2) show ?case
    by (simp add: playback_def)
qed

lemma hasEnded_seek_tags:
  "hasEnded
     (forEach trs
        (\<lambda>tr index s.
           if js_ge time (trigger_timestamp tr)
           then (let s' = showTagForSeek (tag tr) index s
                 in s'\<lparr>renderedTags := insert index (renderedTags s')\<rparr>)
           else s) s) = hasEnded s"
  by (rule forEach_preserves) (simp add: showTagForSeek_def Let_def)

lemma hasEnded_seek_messages:
  "hasEnded
     (forEach ms
        (\<lambda>m index s. if js_ge t (timestamp m) then showMessageForSeek m index s else s) s)
   = hasEnded s"
  by (rule forEach_preserves) (simp add: showMessageForSeek_eq other_fields_showMessage)

lemma hasEnded_seekToTime: "hasEnded (seekToTime t s) = False"
  by (simp add: seekToTime_def Let_def updateProgress_def hasEnded_seek_tags
      hasEnded_seek_messages)

text \<open>
  Claim C10. \<open>handleAudioEnd\<close> reveals nothing. Once the ended flag is set,
  \<open>updateMessages\<close> returns the state as it is, and no sequence of forward-playback events
  (media position, \<open>timeupdate\<close>, \<open>ended\<close>, animation frames, scheduled updates,
  timeouts) changes the reveal sets, the transcript or the tag panel, or clears the flag: an
  event that was due but not revealed stays unrevealed. A seek or a restart clears the flag.
\<close>

theorem ended_disables_incremental_reveal:
  assumes "hasEnded s"
  shows "updateMessages now s = s \<and>
         transcript (handleAudioEnd s0) = transcript s0 \<and>
         hasEnded (playback es s) \<and>
         transcript (playback es s) = transcript s \<and>
         \<not> hasEnded (seekToTime t s) \<and>
         \<not> hasEnded (restartConversation s)"
  using assms
  by (simp add: updateMessages_ended handleAudioEnd_transcript ended_playback
      hasEnded_seekToTime restartConversation_def Let_def)

theorem ended_disables_incremental_reveal_witness:
  "hasEnded endedPlayer \<and>
   js_ge (audio_currentTime endedPlayer) (timestamp (conversation endedPlayer ! 2)) \<and>
   2 \<notin> renderedMessages endedPlayer \<and>
   updateMessages 60 endedPlayer = endedPlayer \<and>
   2 \<notin> renderedMessages
         (playback [AnimationFrame 60, TimeUpdate, ScheduledUpdate 80, Ended] endedPlayer) \<and>
   2 \<in> renderedMessages (seekToTime (1023 / 16) endedPlayer)"
proof -
  have ended: "hasEnded endedPlayer"
    by code_simp
  have due: "js_ge (audio_currentTime endedPlayer) (timestamp (conversation endedPlayer ! 2)) \<and>
             2 \<notin> renderedMessages endedPlayer \<and>
             2 \<in> renderedMessages (seekToTime (1023 / 16) endedPlayer)"
    by code_simp
  show ?thesis
    using ended_disables_incremental_reveal
            [OF ended, of 60 endedPlayer
               "[AnimationFrame 60, TimeUpdate, ScheduledUpdate 80, Ended]" "1023 / 16"]
          ended due
    by (simp add: transcript_def)
qed

text \<open>What does hold at the end of the media: a repeated \<open>handleAudioEnd\<close> changes
  nothing, and a \<open>timeupdate\<close> after the end leaves the ended flag and everything revealed
  as they are.\<close>

lemma handleAudioEnd_idempotent: "handleAudioEnd (handleAudioEnd s) = handleAudioEnd s"
  by (simp add: handleAudioEnd_def pause_def stopAnimationLoop_def Let_def)

text \<open>The progress display, however, is rewritten by every \<open>timeupdate\<close> outside a drag,
  ended or not.\<close>

lemma ended_on_timeupdate_progress:
  "hasEnded s \<Longrightarrow> \<not> isDragging s \<Longrightarrow>
   progressFill_width (on_timeupdate s) = js_progress (audio_currentTime s) (duration s)"
  by (simp add: on_timeupdate_def Let_def updateProgress_def scheduleMessageUpdate_def)

text \<open>
  Claim C6 on the code. The end is detected at 63.9375 s of 64 s, and \<open>handleAudioEnd\<close>
  puts the progress display at 100 % and 1:04. The next \<open>timeupdate\<close> runs
  \<open>updateProgress\<close> before it looks at the ended flag: the display goes back to
  99.90234375 % and 1:03, while the flag stays set.
\<close>

theorem timeupdate_after_end_moves_progress:
  "hasEnded endedPlayer \<and>
   progressFill_width endedPlayer = Num 100 \<and>
   currentTimeEl endedPlayer = ''1:04'' \<and>
   hasEnded (on_timeupdate endedPlayer) \<and>
   progressFill_width (on_timeupdate endedPlayer) = Num (25575 / 256) \<and>
   currentTimeEl (on_timeupdate endedPlayer) = ''1:03''"
  by code_simp

section \<open>The tag panel\<close>

lemma showTag_panel_request:
  "timeouts (showTag td s) =
     (if card (renderedTags s) = 1 then timeouts s @ [(300, ShowTagsContainer)] else timeouts s)"
  by (simp add: showTag_def Let_def)

lemma showTag_first_tag: "renderedTags s = {} \<Longrightarrow> timeouts (showTag td s) = timeouts s"
  by (simp add: showTag_panel_request)

text \<open>
  Claim C5 on the code. \<open>updateTags\<close> calls \<open>showTag\<close> before it adds the index to the
  tag reveal set, and \<open>showTag\<close> asks for the panel when the set has exactly one member.
  So the first tag of a session is revealed without the request (no timeout is pending, the
  panel stays hidden), and the request comes with the second tag. A seek to the same
  position shows the panel.
\<close>

theorem first_tag_does_not_show_panel:
  "renderedTags playingPlayer = {} \<and>
   renderedTags (playback [MediaTime 1, AnimationFrame 100] playingPlayer) = {0} \<and>
   timeouts (playback [MediaTime 1, AnimationFrame 100] playingPlayer) = [] \<and>
   tagsContainer_opacity (playback [MediaTime 1, AnimationFrame 100] playingPlayer) = ''0'' \<and>
   timeouts (playback [MediaTime 1, AnimationFrame 100, MediaTime 13, AnimationFrame 200]
               playingPlayer) = [(300, ShowTagsContainer)] \<and>
   tagsContainer_opacity (seekToTime 1 playingPlayer) = ''1''"
  by code_simp

section \<open>Dragging the scrubber\<close>

text \<open>What does hold during a drag: the \<open>timeupdate\<close> listener does nothing, moving the
  pointer changes the progress display only, and releasing the pointer ends the drag with
  one call of \<open>seekToTime\<close>.\<close>

lemma dragging_on_timeupdate: "isDragging s \<Longrightarrow> on_timeupdate s = s"
  by (simp add: on_timeupdate_def)

lemma transcript_handleDrag: "transcript (handleDrag e s) = transcript s"
  by (simp add: handleDrag_def transcript_def split: option.splits)

lemma on_mouseup_seeks_once:
  "isDragging s \<Longrightarrow>
   on_mouseup e s =
     (case percentageOf e of
        None \<Rightarrow> s\<lparr>isDragging := False\<rparr>
      | Some percentage \<Rightarrow> seekToTime (percentage * duration s) (s\<lparr>isDragging := False\<rparr>))"
  by (simp add: on_mouseup_def handleDragEnd_def split: option.splits)

text \<open>The animation loop, however, does exactly the same whether a drag is active or
  not.\<close>

lemma fold_commute:
  assumes "\<And>x s. f x (u s) = u (f x s)"
  shows "fold f xs (u s) = u (fold f xs s)"
  using assms by (induction xs arbitrary: s) simp_all

lemma showMessage_isDragging:
  "showMessage m i (s\<lparr>isDragging := b\<rparr>) = (showMessage m i s)\<lparr>isDragging := b\<rparr>"
  by (simp add: showMessage_def createNewMessage_def appendToExistingMessage_def Let_def
      split: option.splits)

lemma showTag_isDragging:
  "showTag td (s\<lparr>isDragging := b\<rparr>) = (showTag td s)\<lparr>isDragging := b\<rparr>"
  by (simp add: showTag_def Let_def)

lemma updateTags_isDragging:
  "updateTags t (s\<lparr>isDragging := b\<rparr>) = (updateTags t s)\<lparr>isDragging := b\<rparr>"
proof -
  have "currentTabTriggers (s\<lparr>isDragging := b\<rparr>) = currentTabTriggers s" by simp
  then show ?thesis
    unfolding updateTags_def forEach_def
    by (simp only:) (rule fold_commute, simp add: showTag_isDragging Let_def split: prod.split)
qed

lemma updateMessages_isDragging:
  "updateMessages now (s\<lparr>isDragging := b\<rparr>) = (updateMessages now s)\<lparr>isDragging := b\<rparr>"
proof (cases "\<not> hasEnded s \<and> 16 \<le> now - lastRenderTime s")
  case True
  let ?f = "\<lambda>m index s'.
             if js_ge (audio_currentTime s) (timestamp m) \<and> index \<notin> renderedMessages s'
             then showMessage m index s' else s'"
  have swap: "(s\<lparr>isDragging := b\<rparr>)\<lparr>lastRenderTime := now\<rparr> =
              (s\<lparr>lastRenderTime := now\<rparr>)\<lparr>isDragging := b\<rparr>"
    by simp
  have pass: "forEach (conversation s) ?f ((s\<lparr>lastRenderTime := now\<rparr>)\<lparr>isDragging := b\<rparr>) =
        (forEach (conversation s) ?f (s\<lparr>lastRenderTime := now\<rparr>))\<lparr>isDragging := b\<rparr>"
    unfolding forEach_def
    by (rule fold_commute) (simp add: showMessage_isDragging split: prod.split)
  have "updateMessages now (s\<lparr>isDragging := b\<rparr>) =
        updateTags (audio_currentTime s)
          (forEach (conversation s) ?f ((s\<lparr>isDragging := b\<rparr>)\<lparr>lastRenderTime := now\<rparr>))"
    using True updateMessages_running [of "s\<lparr>isDragging := b\<rparr>" now] by simp
  also have "\<dots> =
        (updateTags (audio_currentTime s)
          (forEach (conversation s) ?f (s\<lparr>lastRenderTime := now\<rparr>)))\<lparr>isDragging := b\<rparr>"
    by (simp only: swap pass updateTags_isDragging)
  also have "\<dots> = (updateMessages now s)\<lparr>isDragging := b\<rparr>"
    using True updateMessages_running [of s now] by simp
  finally show ?thesis .
next
  case False
  then show ?thesis
    by (auto simp: updateMessages_def Let_def)
qed

lemma animate_ignores_isDragging:
  "on_animationFrame now (s\<lparr>isDragging := b\<rparr>) = (on_animationFrame now s)\<lparr>isDragging := b\<rparr>"
  by (simp add: on_animationFrame_def animate_def Let_def updateMessages_isDragging)

text \<open>
  Claim C9 on the code. The animation loop does not look at \<open>isDragging\<close>. While the
  scrubber is held and the audio plays on from 0.5 s to 1.5 s, the \<open>timeupdate\<close> is
  ignored, but the next animation frame reveals the utterance with timestamp 1: the
  transcript grows during the drag.
\<close>

theorem animation_loop_reveals_while_dragging:
  "isDragging draggingPlayer \<and>
   renderedMessages draggingPlayer = {0} \<and>
   shownTexts draggingPlayer = [''Hi''] \<and>
   isDragging (playback [MediaTime (3 / 2), TimeUpdate, AnimationFrame 40] draggingPlayer) \<and>
   renderedMessages (playback [MediaTime (3 / 2), TimeUpdate, AnimationFrame 40] draggingPlayer)
     = {0, 1} \<and>
   shownTexts (playback [MediaTime (3 / 2), TimeUpdate, AnimationFrame 40] draggingPlayer)
     = [''Hi'', ''Bye'']"
  by code_simp

end
